theory Spec2Isabelle
  imports Main "HOL-Library.AList"
begin

section \<open>The system-role screen of the admin console\<close>

text \<open>
  A shallow embedding of \<^verbatim>\<open>components/admin_console/system_roles/system_role/system_role.tsx\<close>:
  the component state, the three callbacks \<^verbatim>\<open>addUsersToRole\<close>, \<^verbatim>\<open>removeUserFromRole\<close> and
  \<^verbatim>\<open>updatePermission\<close>, and the save path \<^verbatim>\<open>handleSubmit\<close>.

  Conventions of the embedding.
  \<^item> \<^verbatim>\<open>this.setState(partial)\<close> is a record update of the state; every callback takes the
    state and returns the new one.
  \<^item> A \<^verbatim>\<open>Dictionary<T>\<close> (a plain JavaScript object used as a map) is an association
    list in the enumeration order of the object: assigning to a key that is present replaces
    the value in place, assigning to a new key appends, \<^verbatim>\<open>delete\<close> drops the entry, and
    \<^verbatim>\<open>Object.keys\<close> lists the keys from left to right. Reading \<^verbatim>\<open>obj[key]\<close> as a condition
    finds the object's own entry or, failing that, a member that every plain object
    inherits from \<^verbatim>\<open>Object.prototype\<close>; \<^verbatim>\<open>delete\<close> and \<^verbatim>\<open>Object.keys\<close> see own entries only.
    Keys that are array indices, which JavaScript enumerates before the others, are not
    told apart: the order of the calls inside a phase is that of the list.
  \<^item> The remote action \<^verbatim>\<open>updateUserRoles\<close> is a parameter. Its promise is modelled by the
    instant at which it settles together with the value it resolves with; the actions of
    the store report failure in the resolved value and do not reject.
  \<^item> Every call of \<^verbatim>\<open>updateUserRoles\<close> is recorded, in the order of issue, with the phase
    that issued it.
  \<^item> \<^verbatim>\<open>saveKey\<close> is a natural number (the source's number starts at 0 and only grows by 1).
\<close>

subsection \<open>Strings and arrays of the JavaScript library\<close>

text \<open>\<^verbatim>\<open>s.split(sep)\<close> for a separator of one character: always at least one piece.\<close>

fun str_split :: "char \<Rightarrow> string \<Rightarrow> string list" where
  "str_split sep [] = [[]]"
| "str_split sep (c # cs) =
     (if c = sep then [] # str_split sep cs
      else (case str_split sep cs of
              [] \<Rightarrow> [[c]]
            | w # ws \<Rightarrow> (c # w) # ws))"

text \<open>\<^verbatim>\<open>xs.join(sep)\<close>.\<close>

fun str_join :: "string \<Rightarrow> string list \<Rightarrow> string" where
  "str_join sep [] = []"
| "str_join sep [x] = x"
| "str_join sep (x # y # ys) = x @ sep @ str_join sep (y # ys)"

text \<open>
  lodash's \<^verbatim>\<open>uniq\<close>: walks the array from the left and pushes a value to the result when
  the result does not hold it yet, so the first occurrence of each value is kept.
\<close>

fun baseUniq :: "'a list \<Rightarrow> 'a list \<Rightarrow> 'a list" where
  "baseUniq [] result = result"
| "baseUniq (x # xs) result =
     (if x \<in> set result then baseUniq xs result else baseUniq xs (result @ [x]))"

definition uniq :: "'a list \<Rightarrow> 'a list" where
  "uniq xs = baseUniq xs []"

subsection \<open>Data model\<close>

text \<open>The fields of \<^verbatim>\<open>UserProfile\<close> and \<^verbatim>\<open>Role\<close> that the component reads.\<close>

record UserProfile =
  user_id :: string
  roles :: string

record Role =
  name :: string

type_synonym 'a Dictionary = "(string \<times> 'a) list"

definition Object_keys :: "'a Dictionary \<Rightarrow> string list" where
  "Object_keys d = map fst d"

datatype PermissionValue = PermRead | PermWrite | PermFalse

text \<open>
  Modelled from the spec: the type \<^verbatim>\<open>ActionResult\<close> and the guard \<^verbatim>\<open>isError\<close> are imported
  from modules outside this file. A result "is either a success payload or an object
  containing an error with a message field"; \<^verbatim>\<open>isError\<close> recognises the second form.
\<close>

datatype ActionResult = Data string | Error string

fun isError :: "ActionResult \<Rightarrow> bool" where
  "isError (Error m) = True"
| "isError (Data d) = False"

datatype 'a Promise = Promise (settled_at: nat) (resolved: 'a)

text \<open>
  \<^verbatim>\<open>await Promise.all(ps)\<close>: the resolved values in the order of the array \<^verbatim>\<open>ps\<close>, whatever
  the instants at which the promises settle.
\<close>

definition Promise_all :: "'a Promise list \<Rightarrow> 'a list" where
  "Promise_all ps = map resolved ps"

record Props =
  role :: Role
  updateUserRoles :: "string \<Rightarrow> string \<Rightarrow> ActionResult Promise"

text \<open>\<^verbatim>\<open>serverError\<close> is the \<^verbatim>\<open>FormError\<close> element, represented by the message it shows.\<close>

record State =
  usersToAdd :: "UserProfile Dictionary"
  usersToRemove :: "UserProfile Dictionary"
  permissionsToUpdate :: "PermissionValue Dictionary"
  saving :: bool
  saveNeeded :: bool
  serverError :: "string option"
  saveKey :: nat

definition initial_state :: State where
  "initial_state =
     \<lparr>usersToAdd = [], usersToRemove = [], permissionsToUpdate = [],
      saving = False, saveNeeded = False, serverError = None, saveKey = 0\<rparr>"

subsection \<open>Pending membership changes\<close>

text \<open>
  \<^verbatim>\<open>getSaveNeeded(nextState)\<close> reads the two maps of \<^verbatim>\<open>{...this.state, ...nextState}\<close>; the
  partial state is the record update it stands for.
\<close>

definition getSaveNeeded :: "State \<Rightarrow> (State \<Rightarrow> State) \<Rightarrow> bool" where
  "getSaveNeeded this_state nextState =
     (let merged = nextState this_state
      in length (Object_keys (usersToAdd merged)) > 0
         \<or> length (Object_keys (usersToRemove merged)) > 0)"

text \<open>
  The names of the members of \<^verbatim>\<open>Object.prototype\<close>, which a plain object inherits: functions,
  and for \<^verbatim>\<open>__proto__\<close> the prototype object itself, so each of them is truthy.
\<close>

definition Object_prototype :: "string list" where
  "Object_prototype =
     [''constructor'', ''__defineGetter__'', ''__defineSetter__'', ''hasOwnProperty'',
      ''__lookupGetter__'', ''__lookupSetter__'', ''isPrototypeOf'', ''propertyIsEnumerable'',
      ''toString'', ''valueOf'', ''__proto__'', ''toLocaleString'']"

definition inherited :: "string \<Rightarrow> bool" where
  "inherited key \<longleftrightarrow> key \<in> set Object_prototype"

text \<open>
  \<^verbatim>\<open>if (obj[key])\<close> on a dictionary of objects: an own entry is an object and so truthy; a
  key without an own entry is looked up along the prototype chain.
\<close>

definition truthy :: "'a Dictionary \<Rightarrow> string \<Rightarrow> bool" where
  "truthy obj key = (case map_of obj key of Some v \<Rightarrow> True | None \<Rightarrow> inherited key)"

text \<open>The body of the \<^verbatim>\<open>forEach\<close> of \<^verbatim>\<open>addUsersToRole\<close>, on the two copied maps.\<close>

fun addUsers_body ::
  "UserProfile \<Rightarrow> UserProfile Dictionary \<times> UserProfile Dictionary
     \<Rightarrow> UserProfile Dictionary \<times> UserProfile Dictionary" where
  "addUsers_body user (toAdd, toRemove) =
     (if truthy toRemove (user_id user)
      then (toAdd, AList.delete (user_id user) toRemove)
      else (AList.update (user_id user) user toAdd, toRemove))"

definition addUsersToRole :: "UserProfile list \<Rightarrow> State \<Rightarrow> State" where
  "addUsersToRole users s =
     (case fold addUsers_body users (usersToAdd s, usersToRemove s) of
        (toAdd, toRemove) \<Rightarrow>
          s\<lparr>usersToAdd := toAdd, usersToRemove := toRemove,
            saveNeeded :=
              getSaveNeeded s (\<lambda>st. st\<lparr>usersToAdd := toAdd, usersToRemove := toRemove\<rparr>)\<rparr>)"

definition removeUserFromRole :: "UserProfile \<Rightarrow> State \<Rightarrow> State" where
  "removeUserFromRole user s =
     (case (if truthy (usersToAdd s) (user_id user)
            then (AList.delete (user_id user) (usersToAdd s), usersToRemove s)
            else (usersToAdd s, AList.update (user_id user) user (usersToRemove s))) of
        (toAdd, toRemove) \<Rightarrow>
          s\<lparr>usersToRemove := toRemove, usersToAdd := toAdd,
            saveNeeded :=
              getSaveNeeded s (\<lambda>st. st\<lparr>usersToAdd := toAdd, usersToRemove := toRemove\<rparr>)\<rparr>)"

definition updatePermission :: "string \<Rightarrow> PermissionValue \<Rightarrow> State \<Rightarrow> State" where
  "updatePermission nm v s =
     s\<lparr>permissionsToUpdate := AList.update nm v (permissionsToUpdate s)\<rparr>"

subsection \<open>The save path\<close>

datatype error = TypeError

datatype Phase = RemovalPhase | AdditionPhase

datatype Call = Call (call_phase: Phase) (call_userId: string) (call_roles: string)

text \<open>The role lists of lines 115 and 133, before they are joined.\<close>

definition rolesWithout :: "Role \<Rightarrow> UserProfile \<Rightarrow> string list" where
  "rolesWithout r user =
     uniq (filter (\<lambda>x. x \<noteq> name r) (str_split (CHR '' '') (roles user)))"

definition rolesWith :: "Role \<Rightarrow> UserProfile \<Rightarrow> string list" where
  "rolesWith r user = uniq (str_split (CHR '' '') (roles user) @ [name r])"

text \<open>
  The two \<^verbatim>\<open>forEach\<close> loops over the keys. Reading a property of \<^verbatim>\<open>undefined\<close> throws, so
  a key without an entry is the branch \<open>TypeError\<close>. Each round yields the recorded call and
  the promise pushed to the array.
\<close>

fun removeUsers_forEach ::
  "Props \<Rightarrow> UserProfile Dictionary \<Rightarrow> string list
     \<Rightarrow> error + (Call \<times> ActionResult Promise) list" where
  "removeUsers_forEach props toRemove [] = Inr []"
| "removeUsers_forEach props toRemove (userId # userIds) =
     (case map_of toRemove userId of
        None \<Rightarrow> Inl TypeError
      | Some user \<Rightarrow>
          (let updatedRoles = str_join '' '' (rolesWithout (role props) user);
               promise = updateUserRoles props userId updatedRoles
           in case removeUsers_forEach props toRemove userIds of
                Inl e \<Rightarrow> Inl e
              | Inr ps \<Rightarrow> Inr ((Call RemovalPhase userId updatedRoles, promise) # ps)))"

fun addUsers_forEach ::
  "Props \<Rightarrow> UserProfile Dictionary \<Rightarrow> string list
     \<Rightarrow> error + (Call \<times> ActionResult Promise) list" where
  "addUsers_forEach props toAdd [] = Inr []"
| "addUsers_forEach props toAdd (userId # userIds) =
     (case map_of toAdd userId of
        None \<Rightarrow> Inl TypeError
      | Some user \<Rightarrow>
          (let updatedRoles = str_join '' '' (rolesWith (role props) user);
               promise = updateUserRoles props userId updatedRoles
           in case addUsers_forEach props toAdd userIds of
                Inl e \<Rightarrow> Inl e
              | Inr ps \<Rightarrow> Inr ((Call AdditionPhase userId updatedRoles, promise) # ps)))"

text \<open>
  \<^verbatim>\<open>if (resultWithError && 'error' in resultWithError) serverError = ...\<close>: the message of
  the result found, or the variable as it was.
\<close>

fun surface :: "ActionResult option \<Rightarrow> string option \<Rightarrow> string option" where
  "surface (Some (Error m)) serverError0 = Some m"
| "surface (Some (Data d)) serverError0 = serverError0"
| "surface None serverError0 = serverError0"

definition removePhase ::
  "Props \<Rightarrow> UserProfile Dictionary \<Rightarrow> error + (Call list \<times> string option)" where
  "removePhase props toRemove =
     (let userIdsToRemove = Object_keys toRemove
      in if length userIdsToRemove > 0
         then (case removeUsers_forEach props toRemove userIdsToRemove of
                 Inl e \<Rightarrow> Inl e
               | Inr removeUserPromises \<Rightarrow>
                   (let result = Promise_all (map snd removeUserPromises);
                        resultWithError = find isError result
                    in Inr (map fst removeUserPromises, surface resultWithError None)))
         else Inr ([], None))"

definition addPhase ::
  "Props \<Rightarrow> UserProfile Dictionary \<Rightarrow> string option
     \<Rightarrow> error + (Call list \<times> string option)" where
  "addPhase props toAdd serverError0 =
     (let userIdsToAdd = Object_keys toAdd
      in if length userIdsToAdd > 0 \<and> serverError0 = None
         then (case addUsers_forEach props toAdd userIdsToAdd of
                 Inl e \<Rightarrow> Inl e
               | Inr addUserPromises \<Rightarrow>
                   (let result = Promise_all (map snd addUserPromises);
                        resultWithError = find isError result
                    in Inr (map fst addUserPromises, surface resultWithError serverError0)))
         else Inr ([], serverError0))"

definition handleSubmit :: "Props \<Rightarrow> State \<Rightarrow> error + (State \<times> Call list)" where
  "handleSubmit props s =
     (let s1 = s\<lparr>saving := True, saveNeeded := False\<rparr>
      in case removePhase props (usersToRemove s1) of
           Inl e \<Rightarrow> Inl e
         | Inr (removeCalls, serverError1) \<Rightarrow>
             (case addPhase props (usersToAdd s1) serverError1 of
                Inl e \<Rightarrow> Inl e
              | Inr (addCalls, serverError2) \<Rightarrow>
                  (let saveKey2 = (if serverError2 = None then saveKey s1 + 1 else saveKey s1)
                   in Inr (s1\<lparr>saveNeeded := (serverError2 \<noteq> None),
                               saving := False,
                               serverError := serverError2,
                               usersToAdd := [],
                               usersToRemove := [],
                               saveKey := saveKey2\<rparr>,
                           removeCalls @ addCalls))))"

subsection \<open>Descriptions used in the statements\<close>

text \<open>
  The call that a phase issues for a key of its map, and the value with which the promise
  of a recorded call resolves.
\<close>

definition removalCall :: "Props \<Rightarrow> UserProfile Dictionary \<Rightarrow> string \<Rightarrow> Call" where
  "removalCall props d k =
     Call RemovalPhase k (str_join '' '' (rolesWithout (role props) (the (map_of d k))))"

definition additionCall :: "Props \<Rightarrow> UserProfile Dictionary \<Rightarrow> string \<Rightarrow> Call" where
  "additionCall props d k =
     Call AdditionPhase k (str_join '' '' (rolesWith (role props) (the (map_of d k))))"

definition answer :: "Props \<Rightarrow> Call \<Rightarrow> ActionResult" where
  "answer props c = resolved (updateUserRoles props (call_userId c) (call_roles c))"

text \<open>
  The states of the component: the state of the constructor, and every state that a
  callback or a finished save produces from one of them. The role of the component is
  fixed; the remote action may answer differently at every save.
\<close>

inductive reachable :: "Role \<Rightarrow> State \<Rightarrow> bool" for r :: Role where
  reach_init: "reachable r initial_state"
| reach_addUsers: "reachable r s \<Longrightarrow> reachable r (addUsersToRole users s)"
| reach_removeUser: "reachable r s \<Longrightarrow> reachable r (removeUserFromRole user s)"
| reach_updatePermission: "reachable r s \<Longrightarrow> reachable r (updatePermission nm v s)"
| reach_submit:
    "reachable r s \<Longrightarrow> role props = r \<Longrightarrow> handleSubmit props s = Inr (s', tr)
       \<Longrightarrow> reachable r s'"

text \<open>
  The reading of the specification that the error shown is the first one in the order in
  which the calls of a phase complete: the promises sorted by the instant at which they
  settle, then searched from the left.
\<close>

definition firstErrorInCompletionOrder :: "ActionResult Promise list \<Rightarrow> ActionResult option" where
  "firstErrorInCompletionOrder ps = find isError (map resolved (sort_key settled_at ps))"

text \<open>Two states that differ at most in \<^verbatim>\<open>permissionsToUpdate\<close>.\<close>

definition samePending :: "State \<Rightarrow> State \<Rightarrow> bool" where
  "samePending s t \<longleftrightarrow>
     usersToAdd s = usersToAdd t \<and> usersToRemove s = usersToRemove t
     \<and> saving s = saving t \<and> saveNeeded s = saveNeeded t
     \<and> serverError s = serverError t \<and> saveKey s = saveKey t"

text \<open>
  The calls of the two phases for a state, and the message that a batch of calls leaves in
  \<^verbatim>\<open>serverError\<close>: that of the first failed result in the order of the array.
\<close>

definition removalCalls :: "Props \<Rightarrow> State \<Rightarrow> Call list" where
  "removalCalls props s =
     map (removalCall props (usersToRemove s)) (Object_keys (usersToRemove s))"

definition additionCalls :: "Props \<Rightarrow> State \<Rightarrow> Call list" where
  "additionCalls props s =
     map (additionCall props (usersToAdd s)) (Object_keys (usersToAdd s))"

definition shown :: "Props \<Rightarrow> Call list \<Rightarrow> string option" where
  "shown props cs = surface (find isError (map (answer props) cs)) None"

subsection \<open>Sample data\<close>

definition system_manager :: Role where
  "system_manager = \<lparr>name = ''system_manager''\<rparr>"

definition alice :: UserProfile where
  "alice = \<lparr>user_id = ''alice'', roles = ''system_user system_manager''\<rparr>"

definition bob :: UserProfile where
  "bob = \<lparr>user_id = ''bob'', roles = ''system_user''\<rparr>"

definition carol :: UserProfile where
  "carol = \<lparr>user_id = ''carol'', roles = ''system_user system_manager system_user''\<rparr>"



text \<open>A role whose name has a space in it, and a user whose role list spells it.\<close>

definition team_admin :: Role where
  "team_admin = \<lparr>name = ''team admin''\<rparr>"

definition dave :: UserProfile where
  "dave = \<lparr>user_id = ''dave'', roles = ''team admin''\<rparr>"

text \<open>A remote that accepts every update, and one that refuses alice and bob.\<close>

definition accepting :: Props where
  "accepting =
     \<lparr>role = system_manager, updateUserRoles = (\<lambda>userId rs. Promise 1 (Data ''ok''))\<rparr>"

definition accepting_team_admin :: Props where
  "accepting_team_admin =
     \<lparr>role = team_admin, updateUserRoles = (\<lambda>userId rs. Promise 1 (Data ''ok''))\<rparr>"

definition refusing :: Props where
  "refusing =
     \<lparr>role = system_manager,
      updateUserRoles = (\<lambda>userId rs.
         if userId = ''alice'' then Promise 2 (Error ''alice refused'')
         else if userId = ''bob'' then Promise 1 (Error ''bob refused'')
         else Promise 3 (Data ''ok''))\<rparr>"

section \<open>Verification\<close>

subsection \<open>Library functions\<close>

lemma set_baseUniq: "set (baseUniq xs acc) = set acc \<union> set xs"
  by (induction xs arbitrary: acc) auto

lemma distinct_baseUniq: "distinct acc \<Longrightarrow> distinct (baseUniq xs acc)"
  by (induction xs arbitrary: acc) auto

lemma set_uniq: "set (uniq xs) = set xs"
  by (simp add: uniq_def set_baseUniq)

lemma distinct_uniq: "distinct (uniq xs)"
  by (simp add: uniq_def distinct_baseUniq)

lemma str_split_nonempty: "str_split sep s \<noteq> []"
  by (induction s) (auto split: list.splits)

lemma str_split_no_sep: "w \<in> set (str_split sep s) \<Longrightarrow> sep \<notin> set w"
  by (induction s arbitrary: w) (auto split: list.splits if_splits)

lemma str_split_append:
  "sep \<notin> set w \<Longrightarrow> str_split sep (w @ sep # s) = w # str_split sep s"
  by (induction w) (auto split: list.splits)

lemma str_split_word: "sep \<notin> set w \<Longrightarrow> str_split sep w = [w]"
  by (induction w) (auto split: list.splits)

lemma str_split_join:
  "ws \<noteq> [] \<Longrightarrow> \<forall>w\<in>set ws. sep \<notin> set w \<Longrightarrow> str_split sep (str_join [sep] ws) = ws"
proof (induction "[sep]" ws rule: str_join.induct)
  case 1
  then show ?case by simp
next
  case (2 x)
  then show ?case by (simp add: str_split_word)
next
  case (3 x y ys)
  then show ?case by (simp add: str_split_append)
qed


subsection \<open>Permission changes\<close>

text \<open>
  Claim C9. For every state and every call \<^verbatim>\<open>updatePermission(name, value)\<close>, only the field
  \<^verbatim>\<open>permissionsToUpdate\<close> changes, and it changes by setting the entry for the name to the
  value; the pending maps, the two flags, the error and the save counter stay as they are.
\<close>

theorem updatePermission_frame:
  "map_of (permissionsToUpdate (updatePermission nm v s))
     = (map_of (permissionsToUpdate s))(nm \<mapsto> v)
   \<and> usersToAdd (updatePermission nm v s) = usersToAdd s
   \<and> usersToRemove (updatePermission nm v s) = usersToRemove s
   \<and> saving (updatePermission nm v s) = saving s
   \<and> saveNeeded (updatePermission nm v s) = saveNeeded s
   \<and> serverError (updatePermission nm v s) = serverError s
   \<and> saveKey (updatePermission nm v s) = saveKey s
   \<and> updatePermission nm v s
       = s\<lparr>permissionsToUpdate := permissionsToUpdate (updatePermission nm v s)\<rparr>"
  by (simp add: updatePermission_def update_conv')

theorem updatePermission_frame_witness:
  "map_of (permissionsToUpdate
       (updatePermission ''manage_team'' PermWrite
          (updatePermission ''manage_team'' PermRead initial_state))) ''manage_team''
     = Some PermWrite
   \<and> saveNeeded (updatePermission ''manage_team'' PermWrite
          (updatePermission ''manage_team'' PermRead initial_state)) = False
   \<and> saveKey (updatePermission ''manage_team'' PermWrite
          (updatePermission ''manage_team'' PermRead initial_state)) = 0"
  using updatePermission_frame [of "''manage_team''" PermWrite
      "updatePermission ''manage_team'' PermRead initial_state"]
  by (simp add: updatePermission_def initial_state_def)

subsection \<open>The save path in closed form\<close>

lemma removeUsers_forEach_Inr:
  "set ks \<subseteq> fst ` set d \<Longrightarrow>
   removeUsers_forEach props d ks =
     Inr (map (\<lambda>k. (removalCall props d k,
                     updateUserRoles props k (call_roles (removalCall props d k)))) ks)"
proof (induction ks)
  case Nil
  then show ?case by simp
next
  case (Cons k ks)
  from Cons.prems have "k \<in> fst ` set d" by simp
  then obtain user where "map_of d k = Some user"
    by (metis domD dom_map_of_conv_image_fst)
  with Cons show ?case by (simp add: removalCall_def Let_def)
qed

lemma addUsers_forEach_Inr:
  "set ks \<subseteq> fst ` set d \<Longrightarrow>
   addUsers_forEach props d ks =
     Inr (map (\<lambda>k. (additionCall props d k,
                     updateUserRoles props k (call_roles (additionCall props d k)))) ks)"
proof (induction ks)
  case Nil
  then show ?case by simp
next
  case (Cons k ks)
  from Cons.prems have "k \<in> fst ` set d" by simp
  then obtain user where "map_of d k = Some user"
    by (metis domD dom_map_of_conv_image_fst)
  with Cons show ?case by (simp add: additionCall_def Let_def)
qed

lemma removePhase_eq:
  "removePhase props d =
     Inr (map (removalCall props d) (Object_keys d),
          surface (find isError (map (answer props) (map (removalCall props d) (Object_keys d)))) None)"
proof -
  have "set (Object_keys d) \<subseteq> fst ` set d" by (simp add: Object_keys_def)
  then show ?thesis
    by (simp add: removePhase_def removeUsers_forEach_Inr Let_def Promise_all_def
        answer_def comp_def removalCall_def)
qed

lemma addPhase_eq:
  "addPhase props d e =
     (if e = None
      then Inr (map (additionCall props d) (Object_keys d),
          surface (find isError (map (answer props) (map (additionCall props d) (Object_keys d)))) None)
      else Inr ([], e))"
proof -
  have "set (Object_keys d) \<subseteq> fst ` set d" by (simp add: Object_keys_def)
  then show ?thesis
    by (simp add: addPhase_def addUsers_forEach_Inr Let_def Promise_all_def
        answer_def comp_def additionCall_def Object_keys_def)
qed

lemma handleSubmit_eq:
  "handleSubmit props s =
     Inr (s\<lparr>saving := False,
            saveNeeded := (shown props (removalCalls props s) \<noteq> None
                           \<or> shown props (additionCalls props s) \<noteq> None),
            serverError := (if shown props (removalCalls props s) = None
                            then shown props (additionCalls props s)
                            else shown props (removalCalls props s)),
            usersToAdd := [], usersToRemove := [],
            saveKey := (if shown props (removalCalls props s) = None
                         \<and> shown props (additionCalls props s) = None
                        then saveKey s + 1 else saveKey s)\<rparr>,
          removalCalls props s
            @ (if shown props (removalCalls props s) = None then additionCalls props s else []))"
  by (simp add: handleSubmit_def removePhase_eq addPhase_eq Let_def shown_def
      removalCalls_def additionCalls_def)

lemma shown_None_iff: "shown props cs = None \<longleftrightarrow> (\<forall>c\<in>set cs. \<not> isError (answer props c))"
proof (induction cs)
  case Nil
  then show ?case by (simp add: shown_def)
next
  case (Cons c cs)
  then show ?case by (cases "answer props c") (simp_all add: shown_def)
qed

lemma shown_append:
  "shown props (cs @ ds) = (if shown props cs = None then shown props ds else shown props cs)"
proof (induction cs)
  case Nil
  then show ?case by (simp add: shown_def)
next
  case (Cons c cs)
  then show ?case by (cases "answer props c") (simp_all add: shown_def)
qed

subsection \<open>The calls of a save\<close>

lemma removalCalls_phase: "c \<in> set (removalCalls props s) \<Longrightarrow> call_phase c = RemovalPhase"
  by (auto simp: removalCalls_def removalCall_def)

lemma additionCalls_phase: "c \<in> set (additionCalls props s) \<Longrightarrow> call_phase c = AdditionPhase"
  by (auto simp: additionCalls_def additionCall_def)

lemma removalCalls_userIds: "map call_userId (removalCalls props s) = Object_keys (usersToRemove s)"
  by (simp add: removalCalls_def removalCall_def comp_def)

lemma additionCalls_userIds: "map call_userId (additionCalls props s) = Object_keys (usersToAdd s)"
  by (simp add: additionCalls_def additionCall_def comp_def)

lemma length_removalCalls: "length (removalCalls props s) = length (usersToRemove s)"
  by (simp add: removalCalls_def Object_keys_def)

lemma length_additionCalls: "length (additionCalls props s) = length (usersToAdd s)"
  by (simp add: additionCalls_def Object_keys_def)

lemma filter_removal_removalCalls:
  "filter (\<lambda>c. call_phase c = RemovalPhase) (removalCalls props s) = removalCalls props s"
  by (simp add: removalCalls_def removalCall_def filter_map comp_def)

lemma filter_addition_removalCalls:
  "filter (\<lambda>c. call_phase c = AdditionPhase) (removalCalls props s) = []"
  by (simp add: removalCalls_def removalCall_def filter_map comp_def)

lemma filter_removal_additionCalls:
  "filter (\<lambda>c. call_phase c = RemovalPhase) (additionCalls props s) = []"
  by (simp add: additionCalls_def additionCall_def filter_map comp_def)

lemma filter_addition_additionCalls:
  "filter (\<lambda>c. call_phase c = AdditionPhase) (additionCalls props s) = additionCalls props s"
  by (simp add: additionCalls_def additionCall_def filter_map comp_def)

lemma answer_cong:
  assumes "role props' = role props"
    and "\<forall>userId rs. resolved (updateUserRoles props' userId rs) = resolved (updateUserRoles props userId rs)"
  shows "removalCalls props' s = removalCalls props s"
    and "additionCalls props' s = additionCalls props s"
    and "shown props' cs = shown props cs"
proof -
  from assms(2) have "answer props' = answer props"
    by (simp add: fun_eq_iff answer_def)
  then show "shown props' cs = shown props cs" by (simp add: shown_def)
  from assms(1) show "removalCalls props' s = removalCalls props s"
    by (simp add: removalCalls_def removalCall_def)
  from assms(1) show "additionCalls props' s = additionCalls props s"
    by (simp add: additionCalls_def additionCall_def)
qed

lemma handleSubmit_clears_pending:
  "\<exists>s' tr. handleSubmit props s = Inr (s', tr) \<and> usersToAdd s' = [] \<and> usersToRemove s' = []
     \<and> (saveNeeded s' \<longleftrightarrow> serverError s' \<noteq> None) \<and> \<not> saving s'
     \<and> permissionsToUpdate s' = permissionsToUpdate s"
  by (simp add: handleSubmit_eq)

text \<open>
  Claim C2. In every save, the calls of the removal phase are all issued before any call of
  the addition phase: the record of calls is the removal calls, one for each key of
  \<^verbatim>\<open>usersToRemove\<close> in the order of \<^verbatim>\<open>Object.keys\<close>, followed by the addition calls. When a
  removal call resolves with an error there is no addition call at all, whatever
  \<^verbatim>\<open>usersToAdd\<close> holds; when none does, there is one addition call for each key of
  \<^verbatim>\<open>usersToAdd\<close>.
\<close>

theorem removals_before_additions:
  "\<exists>s' rs as. handleSubmit props s = Inr (s', rs @ as)
     \<and> (\<forall>c\<in>set rs. call_phase c = RemovalPhase)
     \<and> map call_userId rs = Object_keys (usersToRemove s)
     \<and> (\<forall>c\<in>set as. call_phase c = AdditionPhase)
     \<and> ((\<exists>c\<in>set rs. isError (resolved (updateUserRoles props (call_userId c) (call_roles c))))
          \<longrightarrow> as = [])
     \<and> ((\<forall>c\<in>set rs. \<not> isError (resolved (updateUserRoles props (call_userId c) (call_roles c))))
          \<longrightarrow> map call_userId as = Object_keys (usersToAdd s))"
proof -
  let ?rs = "removalCalls props s"
  let ?as = "if shown props ?rs = None then additionCalls props s else []"
  have run: "\<exists>s'. handleSubmit props s = Inr (s', ?rs @ ?as)"
    by (simp add: handleSubmit_eq)
  have r: "\<forall>c\<in>set ?rs. call_phase c = RemovalPhase"
    by (auto simp: removalCalls_phase)
  have a: "\<forall>c\<in>set ?as. call_phase c = AdditionPhase"
    by (auto simp: additionCalls_phase)
  have fail: "(\<exists>c\<in>set ?rs. isError (resolved (updateUserRoles props (call_userId c) (call_roles c))))
      \<longrightarrow> ?as = []"
    using shown_None_iff [of props ?rs] by (auto simp: answer_def)
  have ok: "(\<forall>c\<in>set ?rs. \<not> isError (resolved (updateUserRoles props (call_userId c) (call_roles c))))
      \<longrightarrow> map call_userId ?as = Object_keys (usersToAdd s)"
    using shown_None_iff [of props ?rs] by (auto simp: answer_def additionCalls_userIds)
  from run r a fail ok removalCalls_userIds [of props s] show ?thesis by blast
qed

theorem removals_before_additions_witness:
  "usersToAdd (addUsersToRole [carol] (removeUserFromRole alice initial_state)) \<noteq> []
   \<and> isError (resolved (updateUserRoles refusing ''alice'' ''system_user''))
   \<and> handleSubmit refusing (addUsersToRole [carol] (removeUserFromRole alice initial_state))
       = Inr (\<lparr>usersToAdd = [], usersToRemove = [], permissionsToUpdate = [],
               saving = False, saveNeeded = True, serverError = Some ''alice refused'',
               saveKey = 0\<rparr>,
              [Call RemovalPhase ''alice'' ''system_user''] @ [])"
  using removals_before_additions
    [of refusing "addUsersToRole [carol] (removeUserFromRole alice initial_state)"]
  by (simp add: addUsersToRole_def removeUserFromRole_def updatePermission_def
        initial_state_def getSaveNeeded_def Object_keys_def alice_def bob_def carol_def
        AList.delete_eq truthy_def inherited_def Object_prototype_def handleSubmit_def removePhase_def addPhase_def Let_def refusing_def
        accepting_def system_manager_def rolesWithout_def rolesWith_def uniq_def
        Promise_all_def)

text \<open>
  Claim C6. A save that starts with exactly two pending additions and one pending removal
  returns, and when every call it issues succeeds it issues exactly three calls, one of the
  removal phase and two of the addition phase, leaves both pending maps empty and a save
  counter one greater than before.
\<close>

theorem submit_two_additions_one_removal:
  assumes "length (usersToAdd s) = 2" and "length (usersToRemove s) = 1"
  shows "\<exists>s' tr. handleSubmit props s = Inr (s', tr)
     \<and> ((\<forall>c\<in>set tr. \<not> isError (resolved (updateUserRoles props (call_userId c) (call_roles c))))
          \<longrightarrow> length tr = 3
              \<and> length (filter (\<lambda>c. call_phase c = RemovalPhase) tr) = 1
              \<and> length (filter (\<lambda>c. call_phase c = AdditionPhase) tr) = 2
              \<and> usersToAdd s' = [] \<and> usersToRemove s' = []
              \<and> saveKey s' = saveKey s + 1)"
proof -
  let ?rs = "removalCalls props s"
  let ?as = "additionCalls props s"
  let ?tr = "?rs @ (if shown props ?rs = None then ?as else [])"
  obtain s' where run: "handleSubmit props s = Inr (s', ?tr)"
    and s': "usersToAdd s' = []" "usersToRemove s' = []"
      "saveKey s' = (if shown props ?rs = None \<and> shown props ?as = None
                     then saveKey s + 1 else saveKey s)"
    by (simp add: handleSubmit_eq)
  have "length ?tr = 3
      \<and> length (filter (\<lambda>c. call_phase c = RemovalPhase) ?tr) = 1
      \<and> length (filter (\<lambda>c. call_phase c = AdditionPhase) ?tr) = 2
      \<and> saveKey s' = saveKey s + 1"
    if ok: "\<forall>c\<in>set ?tr. \<not> isError (resolved (updateUserRoles props (call_userId c) (call_roles c)))"
  proof -
    from ok have r: "shown props ?rs = None"
      by (simp add: shown_None_iff answer_def)
    with ok have a: "shown props ?as = None"
      by (simp add: shown_None_iff answer_def)
    from r a s' assms show ?thesis
      by (simp add: length_removalCalls length_additionCalls filter_removal_removalCalls
          filter_addition_removalCalls filter_removal_additionCalls filter_addition_additionCalls)
  qed
  with run s' show ?thesis by blast
qed

theorem submit_two_additions_one_removal_witness:
  "length (usersToAdd (addUsersToRole [alice, bob] (removeUserFromRole carol initial_state))) = 2
   \<and> length (usersToRemove (addUsersToRole [alice, bob] (removeUserFromRole carol initial_state))) = 1
   \<and> handleSubmit accepting (addUsersToRole [alice, bob] (removeUserFromRole carol initial_state))
       = Inr (\<lparr>usersToAdd = [], usersToRemove = [], permissionsToUpdate = [],
               saving = False, saveNeeded = False, serverError = None, saveKey = 1\<rparr>,
              [Call RemovalPhase ''carol'' ''system_user'',
               Call AdditionPhase ''alice'' ''system_user system_manager'',
               Call AdditionPhase ''bob'' ''system_user system_manager''])"
  using submit_two_additions_one_removal
    [of "addUsersToRole [alice, bob] (removeUserFromRole carol initial_state)" accepting]
  by (simp add: addUsersToRole_def removeUserFromRole_def updatePermission_def
        initial_state_def getSaveNeeded_def Object_keys_def alice_def bob_def carol_def
        AList.delete_eq truthy_def inherited_def Object_prototype_def handleSubmit_def removePhase_def addPhase_def Let_def refusing_def
        accepting_def system_manager_def rolesWithout_def rolesWith_def uniq_def
        Promise_all_def)

text \<open>
  Claim C10. From two states that differ at most in \<^verbatim>\<open>permissionsToUpdate\<close>, a save issues
  the same calls in the same order and ends in two states that again differ at most in
  \<^verbatim>\<open>permissionsToUpdate\<close>; each keeps the permission changes it started with.
\<close>

theorem permissions_do_not_influence_submit:
  assumes "samePending s t"
  shows "\<exists>s' t' tr. handleSubmit props s = Inr (s', tr) \<and> handleSubmit props t = Inr (t', tr)
     \<and> samePending s' t'
     \<and> permissionsToUpdate s' = permissionsToUpdate s
     \<and> permissionsToUpdate t' = permissionsToUpdate t"
proof -
  from assms have r: "removalCalls props t = removalCalls props s"
    and a: "additionCalls props t = additionCalls props s"
    by (simp_all add: samePending_def removalCalls_def additionCalls_def)
  from assms show ?thesis
    by (simp add: handleSubmit_eq r a samePending_def)
qed

theorem permissions_do_not_influence_submit_witness:
  "samePending (removeUserFromRole carol initial_state)
     (updatePermission ''manage_team'' PermRead (removeUserFromRole carol initial_state))
   \<and> handleSubmit accepting (removeUserFromRole carol initial_state)
       = Inr (\<lparr>usersToAdd = [], usersToRemove = [], permissionsToUpdate = [],
               saving = False, saveNeeded = False, serverError = None, saveKey = 1\<rparr>,
              [Call RemovalPhase ''carol'' ''system_user''])
   \<and> handleSubmit accepting
         (updatePermission ''manage_team'' PermRead (removeUserFromRole carol initial_state))
       = Inr (\<lparr>usersToAdd = [], usersToRemove = [],
               permissionsToUpdate = [(''manage_team'', PermRead)],
               saving = False, saveNeeded = False, serverError = None, saveKey = 1\<rparr>,
              [Call RemovalPhase ''carol'' ''system_user''])"
  using permissions_do_not_influence_submit
    [of "removeUserFromRole carol initial_state"
        "updatePermission ''manage_team'' PermRead (removeUserFromRole carol initial_state)"
        accepting]
  by (simp add: samePending_def addUsersToRole_def removeUserFromRole_def updatePermission_def
        initial_state_def getSaveNeeded_def Object_keys_def alice_def bob_def carol_def
        AList.delete_eq truthy_def inherited_def Object_prototype_def handleSubmit_def removePhase_def addPhase_def Let_def refusing_def
        accepting_def system_manager_def rolesWithout_def rolesWith_def uniq_def
        Promise_all_def)

subsection \<open>The error shown after a save\<close>

text \<open>
  Two removal calls that both fail, the second completing first: the save shows the error
  of the first call issued, not the error that arrived first.
\<close>

theorem completion_order_counterexample:
  "handleSubmit refusing (removeUserFromRole bob (removeUserFromRole alice initial_state))
     = Inr (\<lparr>usersToAdd = [], usersToRemove = [], permissionsToUpdate = [],
             saving = False, saveNeeded = True, serverError = Some ''alice refused'',
             saveKey = 0\<rparr>,
            [Call RemovalPhase ''alice'' ''system_user'',
             Call RemovalPhase ''bob'' ''system_user''])
   \<and> firstErrorInCompletionOrder
         [updateUserRoles refusing ''alice'' ''system_user'',
          updateUserRoles refusing ''bob'' ''system_user'']
       = Some (Error ''bob refused'')"
  by (simp add: firstErrorInCompletionOrder_def addUsersToRole_def removeUserFromRole_def
        initial_state_def getSaveNeeded_def Object_keys_def alice_def bob_def carol_def
        AList.delete_eq truthy_def inherited_def Object_prototype_def handleSubmit_def removePhase_def addPhase_def Let_def refusing_def
        accepting_def system_manager_def rolesWithout_def rolesWith_def uniq_def
        Promise_all_def)

text \<open>
  Claim C8, as amended. After every save exactly one value is left in \<^verbatim>\<open>serverError\<close>: the
  message of the first failed call in the order in which the calls were issued (the order of
  \<^verbatim>\<open>Object.keys\<close> of the pending map), or nothing when no call failed. The instants at
  which the calls complete have no influence: a remote that resolves every call with the
  same value, at whatever instants, gives the same final state and the same calls. Nothing
  is recorded on which calls succeeded or which user the error belongs to.
\<close>

theorem surfaced_error_is_first_in_issue_order:
  "\<exists>s' tr. handleSubmit props s = Inr (s', tr)
     \<and> serverError s'
         = surface (find isError
             (map (\<lambda>c. resolved (updateUserRoles props (call_userId c) (call_roles c))) tr)) None
     \<and> (role props' = role props
          \<and> (\<forall>userId rs. resolved (updateUserRoles props' userId rs)
                          = resolved (updateUserRoles props userId rs))
          \<longrightarrow> handleSubmit props' s = Inr (s', tr))"
proof -
  let ?rs = "removalCalls props s"
  let ?as = "additionCalls props s"
  let ?tr = "?rs @ (if shown props ?rs = None then ?as else [])"
  obtain s' where run: "handleSubmit props s = Inr (s', ?tr)"
    and err: "serverError s' = (if shown props ?rs = None then shown props ?as else shown props ?rs)"
    by (simp add: handleSubmit_eq)
  have eq: "(\<lambda>c. resolved (updateUserRoles props (call_userId c) (call_roles c))) = answer props"
    by (simp add: fun_eq_iff answer_def)
  have "surface (find isError
             (map (\<lambda>c. resolved (updateUserRoles props (call_userId c) (call_roles c))) ?tr)) None
        = shown props ?tr"
    unfolding eq by (simp only: shown_def)
  also have "\<dots> = (if shown props ?rs = None then shown props ?as else shown props ?rs)"
    by (simp add: shown_append)
  finally have first: "serverError s'
         = surface (find isError
             (map (\<lambda>c. resolved (updateUserRoles props (call_userId c) (call_roles c))) ?tr)) None"
    using err by simp
  have "handleSubmit props' s = Inr (s', ?tr)"
    if same: "role props' = role props"
      "\<forall>userId rs. resolved (updateUserRoles props' userId rs)
                          = resolved (updateUserRoles props userId rs)"
  proof -
    have "handleSubmit props' s = handleSubmit props s"
      by (simp only: handleSubmit_eq answer_cong [OF same])
    with run show ?thesis by simp
  qed
  with run first show ?thesis by blast
qed

theorem surfaced_error_is_first_in_issue_order_witness:
  "role (refusing\<lparr>updateUserRoles :=
            \<lambda>userId rs. Promise 0 (resolved (updateUserRoles refusing userId rs))\<rparr>)
     = role refusing
   \<and> handleSubmit
         (refusing\<lparr>updateUserRoles :=
            \<lambda>userId rs. Promise 0 (resolved (updateUserRoles refusing userId rs))\<rparr>)
         (removeUserFromRole bob (removeUserFromRole alice initial_state))
       = Inr (\<lparr>usersToAdd = [], usersToRemove = [], permissionsToUpdate = [],
               saving = False, saveNeeded = True, serverError = Some ''alice refused'',
               saveKey = 0\<rparr>,
              [Call RemovalPhase ''alice'' ''system_user'',
               Call RemovalPhase ''bob'' ''system_user''])"
  using surfaced_error_is_first_in_issue_order
    [of refusing "removeUserFromRole bob (removeUserFromRole alice initial_state)"
        "refusing\<lparr>updateUserRoles :=
            \<lambda>userId rs. Promise 0 (resolved (updateUserRoles refusing userId rs))\<rparr>"]
  by (simp add: addUsersToRole_def removeUserFromRole_def updatePermission_def
        initial_state_def getSaveNeeded_def Object_keys_def alice_def bob_def carol_def
        AList.delete_eq truthy_def inherited_def Object_prototype_def handleSubmit_def removePhase_def addPhase_def Let_def refusing_def
        accepting_def system_manager_def rolesWithout_def rolesWith_def uniq_def
        Promise_all_def)

subsection \<open>A save that fails\<close>

text \<open>
  Claim C1 asks that a save in which a call fails leaves the two pending maps as they were
  and \<^verbatim>\<open>saveNeeded\<close> true. The last \<^verbatim>\<open>setState\<close> of \<^verbatim>\<open>handleSubmit\<close> writes empty maps in
  every case. With alice pending removal and carol pending addition, and a remote that
  refuses alice: the only call is the removal of alice, the state afterwards has
  \<^verbatim>\<open>saveNeeded\<close> true and the error set, and both pending maps are empty, the addition of
  carol that was never attempted included.
\<close>

theorem failed_submit_discards_pending:
  "usersToAdd (addUsersToRole [carol] (removeUserFromRole alice initial_state))
     = [(''carol'', carol)]
   \<and> usersToRemove (addUsersToRole [carol] (removeUserFromRole alice initial_state))
     = [(''alice'', alice)]
   \<and> handleSubmit refusing (addUsersToRole [carol] (removeUserFromRole alice initial_state))
     = Inr (\<lparr>usersToAdd = [], usersToRemove = [], permissionsToUpdate = [],
             saving = False, saveNeeded = True, serverError = Some ''alice refused'',
             saveKey = 0\<rparr>,
            [Call RemovalPhase ''alice'' ''system_user''])"
  by (simp add: addUsersToRole_def removeUserFromRole_def updatePermission_def
        initial_state_def getSaveNeeded_def Object_keys_def alice_def bob_def carol_def
        AList.delete_eq truthy_def inherited_def Object_prototype_def handleSubmit_def removePhase_def addPhase_def Let_def refusing_def
        accepting_def system_manager_def rolesWithout_def rolesWith_def uniq_def
        Promise_all_def)

subsection \<open>Pending additions and removals\<close>















subsection \<open>The flag \<^verbatim>\<open>saveNeeded\<close>\<close>

lemma saveNeeded_addUsersToRole:
  "saveNeeded (addUsersToRole users s)
     \<longleftrightarrow> usersToAdd (addUsersToRole users s) \<noteq> []
          \<or> usersToRemove (addUsersToRole users s) \<noteq> []"
  by (simp add: addUsersToRole_def getSaveNeeded_def Object_keys_def split: prod.splits)

lemma saveNeeded_removeUserFromRole:
  "saveNeeded (removeUserFromRole user s)
     \<longleftrightarrow> usersToAdd (removeUserFromRole user s) \<noteq> []
          \<or> usersToRemove (removeUserFromRole user s) \<noteq> []"
  by (simp add: removeUserFromRole_def getSaveNeeded_def Object_keys_def)

lemma saveNeeded_successful_submit:
  "handleSubmit props s = Inr (s', tr) \<Longrightarrow> serverError s' = None \<Longrightarrow>
   (saveNeeded s' \<longleftrightarrow> usersToAdd s' \<noteq> [] \<or> usersToRemove s' \<noteq> [])"
  using handleSubmit_clears_pending [of props s] by auto

lemma saveNeeded_failed_submit:
  "handleSubmit props s = Inr (s', tr) \<Longrightarrow> serverError s' \<noteq> None \<Longrightarrow>
   saveNeeded s' \<and> usersToAdd s' = [] \<and> usersToRemove s' = []"
  using handleSubmit_clears_pending [of props s] by auto

text \<open>
  In every state of the component the flag agrees with the pending maps, or the state
  follows a failed save with no change of membership since.
\<close>

lemma reachable_saveNeeded:
  "reachable r s \<Longrightarrow>
   (saveNeeded s \<longleftrightarrow> usersToAdd s \<noteq> [] \<or> usersToRemove s \<noteq> [])
   \<or> (serverError s \<noteq> None \<and> saveNeeded s \<and> usersToAdd s = [] \<and> usersToRemove s = [])"
proof (induction rule: reachable.induct)
  case reach_init
  then show ?case by (simp add: initial_state_def)
next
  case (reach_addUsers s users)
  show ?case using saveNeeded_addUsersToRole [of users s] by simp
next
  case (reach_removeUser s user)
  show ?case using saveNeeded_removeUserFromRole [of user s] by simp
next
  case (reach_updatePermission s nm v)
  then show ?case by (simp add: updatePermission_def)
next
  case (reach_submit s props s' tr)
  show ?case
  proof (cases "serverError s' = None")
    case True
    with saveNeeded_successful_submit [OF reach_submit.hyps(3)] show ?thesis by simp
  next
    case False
    with saveNeeded_failed_submit [OF reach_submit.hyps(3)] show ?thesis by simp
  qed
qed

text \<open>
  Claim C5 asks that \<^verbatim>\<open>saveNeeded\<close> is true exactly when a pending map is not empty, in
  every state the operations can reach. The callbacks keep this, and so does a save without
  error; a save with an error does not. From the state of the constructor, the removal of
  bob followed by a save that the remote refuses reaches a state where \<^verbatim>\<open>saveNeeded\<close> is
  true and both pending maps are empty.
\<close>

theorem saveNeeded_without_pending_change:
  "handleSubmit refusing (removeUserFromRole bob initial_state)
     = Inr (\<lparr>usersToAdd = [], usersToRemove = [], permissionsToUpdate = [],
             saving = False, saveNeeded = True, serverError = Some ''bob refused'',
             saveKey = 0\<rparr>,
            [Call RemovalPhase ''bob'' ''system_user''])
   \<and> reachable system_manager
        \<lparr>usersToAdd = [], usersToRemove = [], permissionsToUpdate = [],
         saving = False, saveNeeded = True, serverError = Some ''bob refused'',
         saveKey = 0\<rparr>"
proof -
  have run: "handleSubmit refusing (removeUserFromRole bob initial_state)
     = Inr (\<lparr>usersToAdd = [], usersToRemove = [], permissionsToUpdate = [],
             saving = False, saveNeeded = True, serverError = Some ''bob refused'',
             saveKey = 0\<rparr>,
            [Call RemovalPhase ''bob'' ''system_user''])"
    by (simp add: removeUserFromRole_def initial_state_def getSaveNeeded_def Object_keys_def
        bob_def handleSubmit_def removePhase_def addPhase_def Let_def refusing_def
        system_manager_def rolesWithout_def uniq_def Promise_all_def
        truthy_def inherited_def Object_prototype_def)
  have "reachable system_manager (removeUserFromRole bob initial_state)"
    by (rule reach_removeUser) (rule reach_init)
  moreover have "role refusing = system_manager"
    by (simp add: refusing_def)
  ultimately have "reachable system_manager
        \<lparr>usersToAdd = [], usersToRemove = [], permissionsToUpdate = [],
         saving = False, saveNeeded = True, serverError = Some ''bob refused'',
         saveKey = 0\<rparr>"
    using run by (rule reach_submit)
  with run show ?thesis by simp
qed

subsection \<open>The role lists sent to the remote\<close>

lemma count_list_distinct: "distinct xs \<Longrightarrow> x \<in> set xs \<Longrightarrow> count_list xs x = 1"
  by (induction xs) auto

lemma distinct_split_join:
  assumes "distinct ws" and "\<forall>w\<in>set ws. sep \<notin> set w"
  shows "distinct (str_split sep (str_join [sep] ws))"
proof (cases "ws = []")
  case True
  then show ?thesis by simp
next
  case False
  with assms show ?thesis by (simp add: str_split_join)
qed

lemma rolesWithout_props:
  "distinct (rolesWithout r user)"
  "set (rolesWithout r user) = set (str_split (CHR '' '') (roles user)) - {name r}"
  "distinct (str_split (CHR '' '') (str_join '' '' (rolesWithout r user)))"
proof -
  show d: "distinct (rolesWithout r user)"
    by (simp add: rolesWithout_def distinct_uniq)
  show s: "set (rolesWithout r user) = set (str_split (CHR '' '') (roles user)) - {name r}"
    by (auto simp: rolesWithout_def set_uniq)
  have "\<forall>w\<in>set (rolesWithout r user). CHR '' '' \<notin> set w"
  proof
    fix w
    assume "w \<in> set (rolesWithout r user)"
    with s have "w \<in> set (str_split (CHR '' '') (roles user))" by simp
    then show "CHR '' '' \<notin> set w" by (rule str_split_no_sep)
  qed
  with d show "distinct (str_split (CHR '' '') (str_join '' '' (rolesWithout r user)))"
    by (rule distinct_split_join)
qed

lemma rolesWith_props:
  "distinct (rolesWith r user)"
  "set (rolesWith r user) = set (str_split (CHR '' '') (roles user)) \<union> {name r}"
  "count_list (rolesWith r user) (name r) = 1"
  "CHR '' '' \<notin> set (name r) \<Longrightarrow>
     str_split (CHR '' '') (str_join '' '' (rolesWith r user)) = rolesWith r user"
proof -
  show d: "distinct (rolesWith r user)"
    by (simp add: rolesWith_def distinct_uniq)
  show s: "set (rolesWith r user) = set (str_split (CHR '' '') (roles user)) \<union> {name r}"
    by (auto simp: rolesWith_def set_uniq)
  from d s show "count_list (rolesWith r user) (name r) = 1"
    by (simp add: count_list_distinct)
  assume sp: "CHR '' '' \<notin> set (name r)"
  have "\<forall>w\<in>set (rolesWith r user). CHR '' '' \<notin> set w"
  proof
    fix w
    assume "w \<in> set (rolesWith r user)"
    with s have "w \<in> set (str_split (CHR '' '') (roles user)) \<or> w = name r" by blast
    with sp show "CHR '' '' \<notin> set w" using str_split_no_sep by blast
  qed
  moreover have "rolesWith r user \<noteq> []"
  proof
    assume "rolesWith r user = []"
    then have "set (rolesWith r user) = {}" by simp
    with s show False by simp
  qed
  ultimately show "str_split (CHR '' '') (str_join '' '' (rolesWith r user)) = rolesWith r user"
    by (simp add: str_split_join)
qed

lemma removalCalls_user:
  assumes "c \<in> set (removalCalls props s)"
  shows "\<exists>user. map_of (usersToRemove s) (call_userId c) = Some user
     \<and> call_phase c = RemovalPhase
     \<and> call_roles c = str_join '' '' (rolesWithout (role props) user)"
proof -
  from assms obtain k where k: "k \<in> fst ` set (usersToRemove s)"
    and c: "c = removalCall props (usersToRemove s) k"
    by (auto simp: removalCalls_def Object_keys_def)
  from k obtain user where "map_of (usersToRemove s) k = Some user"
    by (metis domD dom_map_of_conv_image_fst)
  with c show ?thesis by (simp add: removalCall_def)
qed

lemma additionCalls_user:
  assumes "c \<in> set (additionCalls props s)"
  shows "\<exists>user. map_of (usersToAdd s) (call_userId c) = Some user
     \<and> call_phase c = AdditionPhase
     \<and> call_roles c = str_join '' '' (rolesWith (role props) user)"
proof -
  from assms obtain k where k: "k \<in> fst ` set (usersToAdd s)"
    and c: "c = additionCall props (usersToAdd s) k"
    by (auto simp: additionCalls_def Object_keys_def)
  from k obtain user where "map_of (usersToAdd s) k = Some user"
    by (metis domD dom_map_of_conv_image_fst)
  with c show ?thesis by (simp add: additionCall_def)
qed

lemma removal_call_roles:
  assumes "c \<in> set (removalCalls props s)"
  shows "\<exists>user. map_of (usersToRemove s) (call_userId c) = Some user
             \<and> call_roles c
                 = str_join '' '' (uniq (filter (\<lambda>x. x \<noteq> name (role props))
                     (str_split (CHR '' '') (roles user))))
             \<and> distinct (rolesWithout (role props) user)
             \<and> set (rolesWithout (role props) user)
                 = set (str_split (CHR '' '') (roles user)) - {name (role props)}
             \<and> distinct (str_split (CHR '' '') (call_roles c))"
proof -
  from removalCalls_user [OF assms] obtain user
    where u: "map_of (usersToRemove s) (call_userId c) = Some user"
      "call_roles c = str_join '' '' (rolesWithout (role props) user)"
    by blast
  have sent: "call_roles c
        = str_join '' '' (uniq (filter (\<lambda>x. x \<noteq> name (role props))
            (str_split (CHR '' '') (roles user))))"
    using u(2) by (simp only: rolesWithout_def)
  have parsed: "distinct (str_split (CHR '' '') (call_roles c))"
    unfolding u(2) by (rule rolesWithout_props(3))
  show ?thesis
    by (intro exI [of _ user] conjI u(1) sent parsed rolesWithout_props(1,2))
qed

lemma addition_call_roles:
  assumes "c \<in> set (additionCalls props s)"
  shows "\<exists>user. map_of (usersToAdd s) (call_userId c) = Some user
             \<and> call_roles c
                 = str_join '' '' (uniq (str_split (CHR '' '') (roles user) @ [name (role props)]))
             \<and> distinct (rolesWith (role props) user)
             \<and> set (rolesWith (role props) user)
                 = set (str_split (CHR '' '') (roles user)) \<union> {name (role props)}
             \<and> count_list (rolesWith (role props) user) (name (role props)) = 1
             \<and> (CHR '' '' \<notin> set (name (role props)) \<longrightarrow>
                  str_split (CHR '' '') (call_roles c) = rolesWith (role props) user
                  \<and> distinct (str_split (CHR '' '') (call_roles c)))"
proof -
  from additionCalls_user [OF assms] obtain user
    where u: "map_of (usersToAdd s) (call_userId c) = Some user"
      "call_roles c = str_join '' '' (rolesWith (role props) user)"
    by blast
  have sent: "call_roles c
        = str_join '' '' (uniq (str_split (CHR '' '') (roles user) @ [name (role props)]))"
    using u(2) by (simp only: rolesWith_def)
  have parsed: "CHR '' '' \<notin> set (name (role props)) \<longrightarrow>
        str_split (CHR '' '') (call_roles c) = rolesWith (role props) user
        \<and> distinct (str_split (CHR '' '') (call_roles c))"
  proof
    assume "CHR '' '' \<notin> set (name (role props))"
    then have "str_split (CHR '' '') (call_roles c) = rolesWith (role props) user"
      unfolding u(2) by (rule rolesWith_props(4))
    moreover have "distinct (rolesWith (role props) user)"
      by (rule rolesWith_props(1))
    ultimately show "str_split (CHR '' '') (call_roles c) = rolesWith (role props) user
        \<and> distinct (str_split (CHR '' '') (call_roles c))"
      by (simp only: simp_thms)
  qed
  show ?thesis
    by (intro exI [of _ user] conjI u(1) sent parsed rolesWith_props(1,2,3))
qed

lemma removalCalls_covers:
  assumes "map_of (usersToRemove s) k = Some user"
  shows "Call RemovalPhase k
            (str_join '' '' (uniq (filter (\<lambda>x. x \<noteq> name (role props))
               (str_split (CHR '' '') (roles user))))) \<in> set (removalCalls props s)"
proof -
  from assms have "(k, user) \<in> set (usersToRemove s)" by (rule map_of_SomeD)
  then have "k \<in> set (Object_keys (usersToRemove s))"
    by (force simp: Object_keys_def)
  then have "removalCall props (usersToRemove s) k \<in> set (removalCalls props s)"
    by (simp add: removalCalls_def)
  with assms show ?thesis by (simp add: removalCall_def rolesWithout_def)
qed

lemma additionCalls_covers:
  assumes "map_of (usersToAdd s) k = Some user"
  shows "Call AdditionPhase k
            (str_join '' '' (uniq (str_split (CHR '' '') (roles user) @ [name (role props)])))
           \<in> set (additionCalls props s)"
proof -
  from assms have "(k, user) \<in> set (usersToAdd s)" by (rule map_of_SomeD)
  then have "k \<in> set (Object_keys (usersToAdd s))"
    by (force simp: Object_keys_def)
  then have "additionCall props (usersToAdd s) k \<in> set (additionCalls props s)"
    by (simp add: additionCalls_def)
  with assms show ?thesis by (simp add: additionCall_def rolesWith_def)
qed

text \<open>
  The role named \<^verbatim>\<open>team admin\<close> is added to dave, whose role list reads \<^verbatim>\<open>team admin\<close>: the
  array that is joined has no duplicate, and the string that is sent has each of its two
  entries twice.
\<close>

theorem submitted_role_list_counterexample:
  "handleSubmit accepting_team_admin (addUsersToRole [dave] initial_state)
     = Inr (\<lparr>usersToAdd = [], usersToRemove = [], permissionsToUpdate = [],
             saving = False, saveNeeded = False, serverError = None, saveKey = 1\<rparr>,
            [Call AdditionPhase ''dave'' ''team admin team admin''])
   \<and> str_split (CHR '' '') ''team admin team admin'' = [''team'', ''admin'', ''team'', ''admin'']
   \<and> \<not> distinct (str_split (CHR '' '') ''team admin team admin'')"
  by (simp add: addUsersToRole_def initial_state_def getSaveNeeded_def Object_keys_def
      dave_def team_admin_def accepting_team_admin_def truthy_def inherited_def
      Object_prototype_def handleSubmit_def removePhase_def addPhase_def Let_def
      rolesWith_def uniq_def Promise_all_def)

text \<open>
  Claim C7, as amended. A save returns. It issues a removal call for every user of
  \<^verbatim>\<open>usersToRemove\<close> and, when no removal call returns an error, an addition call for every
  user of \<^verbatim>\<open>usersToAdd\<close>, and it issues no other call. The call for a removed user sends the
  user's role list with every occurrence of this role's name removed and the rest
  deduplicated: the list is distinct, its entries are those of the user's list other than
  the role name, and the string sent splits into distinct entries. The call for an added
  user sends the user's role list with this role's name appended, deduplicated: the list is
  distinct, its entries are those of the user's list and the role name, which occurs
  exactly once also when the user held the role already; the string sent splits back into
  that list, and so has no duplicate entry, when the role's name has no space in it.
\<close>

theorem submitted_role_lists:
  "\<exists>s' tr. handleSubmit props s = Inr (s', tr)
     \<and> (\<forall>k user. map_of (usersToRemove s) k = Some user \<longrightarrow>
          Call RemovalPhase k
            (str_join '' '' (uniq (filter (\<lambda>x. x \<noteq> name (role props))
               (str_split (CHR '' '') (roles user))))) \<in> set tr)
     \<and> ((\<forall>c\<in>set tr. call_phase c = RemovalPhase \<longrightarrow>
            \<not> isError (resolved (updateUserRoles props (call_userId c) (call_roles c)))) \<longrightarrow>
         (\<forall>k user. map_of (usersToAdd s) k = Some user \<longrightarrow>
            Call AdditionPhase k
              (str_join '' '' (uniq (str_split (CHR '' '') (roles user) @ [name (role props)])))
              \<in> set tr))
     \<and> (\<forall>c\<in>set tr.
          (call_phase c = RemovalPhase \<longrightarrow>
           (\<exists>user. map_of (usersToRemove s) (call_userId c) = Some user
             \<and> call_roles c
                 = str_join '' '' (uniq (filter (\<lambda>x. x \<noteq> name (role props))
                     (str_split (CHR '' '') (roles user))))
             \<and> distinct (rolesWithout (role props) user)
             \<and> set (rolesWithout (role props) user)
                 = set (str_split (CHR '' '') (roles user)) - {name (role props)}
             \<and> distinct (str_split (CHR '' '') (call_roles c))))
          \<and> (call_phase c = AdditionPhase \<longrightarrow>
           (\<exists>user. map_of (usersToAdd s) (call_userId c) = Some user
             \<and> call_roles c
                 = str_join '' '' (uniq (str_split (CHR '' '') (roles user) @ [name (role props)]))
             \<and> distinct (rolesWith (role props) user)
             \<and> set (rolesWith (role props) user)
                 = set (str_split (CHR '' '') (roles user)) \<union> {name (role props)}
             \<and> count_list (rolesWith (role props) user) (name (role props)) = 1
             \<and> (CHR '' '' \<notin> set (name (role props)) \<longrightarrow>
                  str_split (CHR '' '') (call_roles c) = rolesWith (role props) user
                  \<and> distinct (str_split (CHR '' '') (call_roles c))))))"
proof -
  let ?rs = "removalCalls props s"
  let ?as = "additionCalls props s"
  let ?tr = "?rs @ (if shown props ?rs = None then ?as else [])"
  let ?R = "\<lambda>c. \<exists>user. map_of (usersToRemove s) (call_userId c) = Some user
             \<and> call_roles c
                 = str_join '' '' (uniq (filter (\<lambda>x. x \<noteq> name (role props))
                     (str_split (CHR '' '') (roles user))))
             \<and> distinct (rolesWithout (role props) user)
             \<and> set (rolesWithout (role props) user)
                 = set (str_split (CHR '' '') (roles user)) - {name (role props)}
             \<and> distinct (str_split (CHR '' '') (call_roles c))"
  let ?A = "\<lambda>c. \<exists>user. map_of (usersToAdd s) (call_userId c) = Some user
             \<and> call_roles c
                 = str_join '' '' (uniq (str_split (CHR '' '') (roles user) @ [name (role props)]))
             \<and> distinct (rolesWith (role props) user)
             \<and> set (rolesWith (role props) user)
                 = set (str_split (CHR '' '') (roles user)) \<union> {name (role props)}
             \<and> count_list (rolesWith (role props) user) (name (role props)) = 1
             \<and> (CHR '' '' \<notin> set (name (role props)) \<longrightarrow>
                  str_split (CHR '' '') (call_roles c) = rolesWith (role props) user
                  \<and> distinct (str_split (CHR '' '') (call_roles c)))"
  obtain s' where run: "handleSubmit props s = Inr (s', ?tr)"
    by (simp add: handleSubmit_eq)
  have removed: "\<forall>k user. map_of (usersToRemove s) k = Some user \<longrightarrow>
          Call RemovalPhase k
            (str_join '' '' (uniq (filter (\<lambda>x. x \<noteq> name (role props))
               (str_split (CHR '' '') (roles user))))) \<in> set ?tr"
  proof (intro allI impI)
    fix k user
    assume "map_of (usersToRemove s) k = Some user"
    from removalCalls_covers [OF this, of props]
    show "Call RemovalPhase k
            (str_join '' '' (uniq (filter (\<lambda>x. x \<noteq> name (role props))
               (str_split (CHR '' '') (roles user))))) \<in> set ?tr"
      by simp
  qed
  have added: "(\<forall>c\<in>set ?tr. call_phase c = RemovalPhase \<longrightarrow>
            \<not> isError (resolved (updateUserRoles props (call_userId c) (call_roles c)))) \<longrightarrow>
         (\<forall>k user. map_of (usersToAdd s) k = Some user \<longrightarrow>
            Call AdditionPhase k
              (str_join '' '' (uniq (str_split (CHR '' '') (roles user) @ [name (role props)])))
              \<in> set ?tr)"
  proof (intro allI impI)
    fix k user
    assume ok: "\<forall>c\<in>set ?tr. call_phase c = RemovalPhase \<longrightarrow>
            \<not> isError (resolved (updateUserRoles props (call_userId c) (call_roles c)))"
      and user: "map_of (usersToAdd s) k = Some user"
    have "\<forall>c\<in>set ?rs. \<not> isError (answer props c)"
    proof
      fix c
      assume c: "c \<in> set ?rs"
      then have "call_phase c = RemovalPhase" by (rule removalCalls_phase)
      moreover from c have "c \<in> set ?tr" by simp
      ultimately show "\<not> isError (answer props c)"
        using ok by (simp add: answer_def)
    qed
    then have "shown props ?rs = None" by (simp only: shown_None_iff)
    with additionCalls_covers [OF user, of props]
    show "Call AdditionPhase k
              (str_join '' '' (uniq (str_split (CHR '' '') (roles user) @ [name (role props)])))
              \<in> set ?tr"
      by simp
  qed
  have "(call_phase c = RemovalPhase \<longrightarrow> ?R c) \<and> (call_phase c = AdditionPhase \<longrightarrow> ?A c)"
    if c: "c \<in> set ?tr" for c
  proof (cases "c \<in> set ?rs")
    case True
    show ?thesis
    proof (intro conjI impI)
      show "?R c" by (rule removal_call_roles [OF True])
      assume "call_phase c = AdditionPhase"
      with removalCalls_phase [OF True] have False by simp
      then show "?A c" ..
    qed
  next
    case False
    with c have a: "c \<in> set ?as" by (simp split: if_splits)
    show ?thesis
    proof (intro conjI impI)
      show "?A c" by (rule addition_call_roles [OF a])
      assume "call_phase c = RemovalPhase"
      with additionCalls_phase [OF a] have False by simp
      then show "?R c" ..
    qed
  qed
  then have sent: "\<forall>c\<in>set ?tr. (call_phase c = RemovalPhase \<longrightarrow> ?R c)
      \<and> (call_phase c = AdditionPhase \<longrightarrow> ?A c)" ..
  from run removed added sent show ?thesis by (intro exI conjI)
qed

theorem submitted_role_lists_witness:
  "CHR '' '' \<notin> set (name (role accepting))
   \<and> map_of (usersToAdd (addUsersToRole [alice] (removeUserFromRole carol initial_state)))
         ''alice'' = Some alice
   \<and> map_of (usersToRemove (addUsersToRole [alice] (removeUserFromRole carol initial_state)))
         ''carol'' = Some carol
   \<and> roles alice = ''system_user system_manager''
   \<and> roles carol = ''system_user system_manager system_user''
   \<and> handleSubmit accepting (addUsersToRole [alice] (removeUserFromRole carol initial_state))
       = Inr (\<lparr>usersToAdd = [], usersToRemove = [], permissionsToUpdate = [],
               saving = False, saveNeeded = False, serverError = None, saveKey = 1\<rparr>,
              [Call RemovalPhase ''carol'' ''system_user'',
               Call AdditionPhase ''alice'' ''system_user system_manager''])"
proof -
  have run: "handleSubmit accepting (addUsersToRole [alice] (removeUserFromRole carol initial_state))
       = Inr (\<lparr>usersToAdd = [], usersToRemove = [], permissionsToUpdate = [],
               saving = False, saveNeeded = False, serverError = None, saveKey = 1\<rparr>,
              [Call RemovalPhase ''carol'' ''system_user'',
               Call AdditionPhase ''alice'' ''system_user system_manager''])"
    by (simp add: addUsersToRole_def removeUserFromRole_def
        initial_state_def getSaveNeeded_def Object_keys_def alice_def carol_def
        AList.delete_eq truthy_def inherited_def Object_prototype_def
        handleSubmit_def removePhase_def addPhase_def Let_def
        accepting_def system_manager_def rolesWithout_def rolesWith_def uniq_def
        Promise_all_def)
  have pre: "CHR '' '' \<notin> set (name (role accepting))
   \<and> map_of (usersToAdd (addUsersToRole [alice] (removeUserFromRole carol initial_state)))
         ''alice'' = Some alice
   \<and> map_of (usersToRemove (addUsersToRole [alice] (removeUserFromRole carol initial_state)))
         ''carol'' = Some carol
   \<and> roles alice = ''system_user system_manager''
   \<and> roles carol = ''system_user system_manager system_user''"
    by (simp add: addUsersToRole_def removeUserFromRole_def
        initial_state_def getSaveNeeded_def Object_keys_def alice_def carol_def
        AList.delete_eq truthy_def inherited_def Object_prototype_def
        accepting_def system_manager_def)
  from submitted_role_lists
    [of accepting "addUsersToRole [alice] (removeUserFromRole carol initial_state)"]
  obtain s' tr
    where "handleSubmit accepting (addUsersToRole [alice] (removeUserFromRole carol initial_state))
       = Inr (s', tr)"
    by (elim exE conjE)
  with run pre show ?thesis by simp
qed

end
